theory Spec2Isabelle
  imports Complex_Main "HOL-Library.AList" "HOL-Library.Char_ord" "HOL-Library.List_Lexorder"
    "HOL-Library.Log_Nat"
begin

section \<open>Python strings\<close>

text \<open>
  Texts are \<^typ>\<open>string\<close>s, one \<^typ>\<open>char\<close> per character. The character classes
  below are those of Python's \<^verbatim>\<open>str\<close> and \<^verbatim>\<open>re\<close> on ASCII text, which is the
  range this development covers: \<^verbatim>\<open>\s\<close> and \<^verbatim>\<open>str.split()\<close> take the six
  C whitespace characters and the four separators 0x1C..0x1F, \<^verbatim>\<open>\w\<close> is a letter,
  a digit or the underscore.
\<close>

definition is_space :: "char \<Rightarrow> bool" where
  "is_space c = (c \<in> set [CHR 0x09, CHR 0x0A, CHR 0x0B, CHR 0x0C, CHR 0x0D,
                           CHR 0x1C, CHR 0x1D, CHR 0x1E, CHR 0x1F, CHR 0x20])"

definition lower_chars :: string where
  "lower_chars = ''abcdefghijklmnopqrstuvwxyz''"

definition upper_chars :: string where
  "upper_chars = ''ABCDEFGHIJKLMNOPQRSTUVWXYZ''"

definition digit_chars :: string where
  "digit_chars = ''0123456789''"

definition is_lower :: "char \<Rightarrow> bool" where
  "is_lower c = (c \<in> set lower_chars)"

definition is_upper :: "char \<Rightarrow> bool" where
  "is_upper c = (c \<in> set upper_chars)"

definition is_digit :: "char \<Rightarrow> bool" where
  "is_digit c = (c \<in> set digit_chars)"

definition is_word_char :: "char \<Rightarrow> bool" where
  "is_word_char c = (is_lower c \<or> is_upper c \<or> is_digit c \<or> c = CHR ''_'')"

definition char_lower :: "char \<Rightarrow> char" where
  "char_lower c = (case map_of (zip upper_chars lower_chars) c of Some l \<Rightarrow> l | None \<Rightarrow> c)"

text \<open>\<^verbatim>\<open>s.lower()\<close>\<close>

definition lower :: "string \<Rightarrow> string" where
  "lower s = map char_lower s"

text \<open>\<^verbatim>\<open>s.isdigit()\<close>: false on the empty string.\<close>

definition isdigit :: "string \<Rightarrow> bool" where
  "isdigit s = (s \<noteq> [] \<and> list_all is_digit s)"

text \<open>\<^verbatim>\<open>s.startswith(p)\<close>\<close>

fun startswith :: "string \<Rightarrow> string \<Rightarrow> bool" where
  "startswith s [] = True"
| "startswith [] (p # ps) = False"
| "startswith (c # cs) (p # ps) = (c = p \<and> startswith cs ps)"

text \<open>\<^verbatim>\<open>needle in hay\<close> on strings: \<open>needle\<close> occurs as a contiguous substring.\<close>

fun str_in :: "string \<Rightarrow> string \<Rightarrow> bool" where
  "str_in needle [] = (needle = [])"
| "str_in needle (c # cs) = (startswith (c # cs) needle \<or> str_in needle cs)"

text \<open>
  \<^verbatim>\<open>s.split()\<close>: the maximal runs of non-whitespace characters, in order.
  \<open>cur\<close> is the run read so far.
\<close>

fun split_from :: "string \<Rightarrow> string \<Rightarrow> string list" where
  "split_from cur [] = (if cur = [] then [] else [cur])"
| "split_from cur (c # cs) =
     (if is_space c then (if cur = [] then split_from [] cs else cur # split_from [] cs)
      else split_from (cur @ [c]) cs)"

definition split :: "string \<Rightarrow> string list" where
  "split s = split_from [] s"

text \<open>\<^verbatim>\<open>any(term in text for term in terms)\<close>\<close>

definition any_in :: "string list \<Rightarrow> string \<Rightarrow> bool" where
  "any_in terms text = list_ex (\<lambda>t. str_in t text) terms"

text \<open>\<^verbatim>\<open>sum(1 for term in terms if term in text)\<close>\<close>

definition count_in :: "string list \<Rightarrow> string \<Rightarrow> nat" where
  "count_in terms text = length (filter (\<lambda>t. str_in t text) terms)"

section \<open>Text normalizer: \<^verbatim>\<open>clean_and_extract_words\<close>\<close>

definition MIN_WORD_LENGTH :: nat where
  "MIN_WORD_LENGTH = 2"

text \<open>
  \<^verbatim>\<open>re.sub(r'([a-z])([A-Z])', r'\1 \2', text)\<close>: the scan is left to right and a
  match consumes both characters.
\<close>

fun split_camel :: "string \<Rightarrow> string" where
  "split_camel (a # b # cs) =
     (if is_lower a \<and> is_upper b then a # CHR '' '' # b # split_camel cs
      else a # split_camel (b # cs))"
| "split_camel cs = cs"

text \<open>
  \<^verbatim>\<open>https?://\S+\<close> matches at the head of \<open>s\<close>: the scheme, then at least one
  non-whitespace character.
\<close>

definition url_here :: "string \<Rightarrow> bool" where
  "url_here s =
     ((startswith s ''https://'' \<and> (case drop 8 s of [] \<Rightarrow> False | c # _ \<Rightarrow> \<not> is_space c))
      \<or> (startswith s ''http://'' \<and> (case drop 7 s of [] \<Rightarrow> False | c # _ \<Rightarrow> \<not> is_space c)))"

text \<open>
  \<^verbatim>\<open>\S+@\S+\<close> matches at the head of \<open>s\<close>: the run of non-whitespace characters
  starting there has an \<^verbatim>\<open>@\<close> that is neither its first nor its last character.
\<close>

definition email_here :: "string \<Rightarrow> bool" where
  "email_here s =
     (let run = takeWhile (\<lambda>c. \<not> is_space c) s
      in CHR ''@'' \<in> set (butlast (tl run)))"

text \<open>
  \<^verbatim>\<open>re.sub(r'https?://\S+|\S+@\S+', '', text)\<close>: both alternatives are greedy in
  \<^verbatim>\<open>\S+\<close>, so a match runs to the end of the run of non-whitespace characters it
  starts in, and is deleted; where neither matches the character is kept.
\<close>

function strip_urls :: "string \<Rightarrow> string" where
  "strip_urls [] = []"
| "strip_urls (c # cs) =
     (if url_here (c # cs) \<or> email_here (c # cs)
      then strip_urls (dropWhile (\<lambda>c. \<not> is_space c) cs)
      else c # strip_urls cs)"
  by pat_completeness auto
termination
  by (relation "measure length") (auto simp: less_Suc_eq_le length_dropWhile_le)

text \<open>
  \<^verbatim>\<open>re.sub(r'(?<![A-Z])[^\w\s\-]|(?<=[A-Z])[^\w\s\-]', ' ', text)\<close>: the two
  alternatives differ only in the look-behind, which together cover every position, so
  every character that is not a word character, whitespace or a hyphen becomes a space.
\<close>

definition strip_punct :: "string \<Rightarrow> string" where
  "strip_punct s =
     map (\<lambda>c. if is_word_char c \<or> is_space c \<or> c = CHR ''-'' then c else CHR '' '') s"

text \<open>The adjacent pairs \<^verbatim>\<open>(tokens[i], tokens[i+1])\<close> for \<^verbatim>\<open>i in range(len(tokens) - 1)\<close>.\<close>

definition adjacent :: "string list \<Rightarrow> (string \<times> string) list" where
  "adjacent tokens = zip tokens (tl tokens)"

definition clean_and_extract_words :: "string \<Rightarrow> string set" where
  "clean_and_extract_words text =
     (if text = [] then {}
      else
        let text1 = split_camel text;
            text2 = strip_urls text1;
            text3 = strip_punct text2;
            text_lower = lower text3;
            tokens = split text_lower;
            words = set (filter (\<lambda>word. length word > MIN_WORD_LENGTH \<and> \<not> isdigit word) tokens);
            phrases = map (\<lambda>(a, b). a @ '' '' @ b)
                        (filter (\<lambda>(a, b). length a > MIN_WORD_LENGTH \<and> length b > MIN_WORD_LENGTH)
                           (adjacent tokens))
        in words \<union> set phrases)"

section \<open>Numbers and dictionaries\<close>

text \<open>
  Scores are Python floats, that is IEEE 754 binary64 numbers. A float is modelled by the
  rational number it denotes, and every operation rounds its exact result to the nearest
  float, a tie going to the even significand. Infinities and NaN are left out: the
  analysis divides only by counts it has found positive, and no quantity of it comes near
  \<open>2 ^ 1024\<close>.
\<close>

type_synonym score = rat

text \<open>The nearest integer, a tie going to the even one.\<close>

definition round_half_even :: "rat \<Rightarrow> int" where
  "round_half_even y =
     (let f = \<lfloor>y\<rfloor>; d = y - of_int f
      in if d < 1 / 2 then f
         else if 1 / 2 < d then f + 1
         else if even f then f else f + 1)"

definition pow2 :: "int \<Rightarrow> rat" where
  "pow2 e = (if 0 \<le> e then 2 ^ nat e else 1 / 2 ^ nat (- e))"

text \<open>The binary exponent of \<open>x \<noteq> 0\<close>: the \<open>e\<close> with \<open>2 ^ e \<le> \<bar>x\<bar> < 2 ^ (e + 1)\<close>.\<close>

definition exponent :: "rat \<Rightarrow> int" where
  "exponent x =
     (let k = bitlen (fst (quotient_of \<bar>x\<bar>)) - bitlen (snd (quotient_of \<bar>x\<bar>))
      in if pow2 k \<le> \<bar>x\<bar> then k else k - 1)"

text \<open>
  The float nearest to \<open>x\<close>: 53 significant bits, and below \<open>2 ^ (- 1022)\<close> the
  fixed spacing \<open>2 ^ (- 1074)\<close> of the subnormal numbers.
\<close>

definition fl :: "rat \<Rightarrow> score" where
  "fl x =
     (if x = 0 then 0
      else let ulp = pow2 (max (exponent x) (- 1022) - 52)
           in of_int (round_half_even (x / ulp)) * ulp)"

text \<open>
  \<^verbatim>\<open>a / b\<close>, \<^verbatim>\<open>a * b\<close> and \<^verbatim>\<open>a + b\<close>. The quotient of two \<^verbatim>\<open>int\<close>s is
  rounded once, from the exact quotient; an \<^verbatim>\<open>int\<close> that meets a float is made a
  float first.
\<close>

definition fdiv :: "rat \<Rightarrow> rat \<Rightarrow> score" where
  "fdiv a b = fl (a / b)"

definition fmul :: "score \<Rightarrow> score \<Rightarrow> score" where
  "fmul a b = fl (a * b)"

definition fadd :: "score \<Rightarrow> score \<Rightarrow> score" where
  "fadd a b = fl (a + b)"

definition float_of_nat :: "nat \<Rightarrow> score" where
  "float_of_nat n = fl (of_nat n)"

text \<open>\<^verbatim>\<open>sum(xs)\<close> on a list of floats: from \<^verbatim>\<open>0\<close>, left to right.\<close>

definition fsum :: "score list \<Rightarrow> score" where
  "fsum xs = foldl fadd 0 xs"

text \<open>
  \<^verbatim>\<open>round(x, 1)\<close>: the exact value of \<open>x\<close> is rounded to the nearest tenth, a tie
  going to the even tenth, and the float nearest to that decimal is returned.
\<close>

definition round1 :: "score \<Rightarrow> score" where
  "round1 x = fl (of_int (round_half_even (x * 10)) / 10)"

text \<open>
  A \<^verbatim>\<open>dict\<close> with string keys is an association list in insertion order:
  assigning to a key that is present keeps its place, a new key goes to the end.
\<close>

type_synonym 'v dict = "(string \<times> 'v) list"

definition keys :: "'v dict \<Rightarrow> string list" where
  "keys d = map fst d"

definition has_key :: "'v dict \<Rightarrow> string \<Rightarrow> bool" where
  "has_key d k = (k \<in> set (keys d))"

definition dict_set :: "string \<Rightarrow> 'v \<Rightarrow> 'v dict \<Rightarrow> 'v dict" where
  "dict_set k v d = AList.update k v d"

definition dict_get :: "'v dict \<Rightarrow> string \<Rightarrow> 'v \<Rightarrow> 'v" where
  "dict_get d k dflt = (case map_of d k of None \<Rightarrow> dflt | Some v \<Rightarrow> v)"

section \<open>Ontology and store\<close>

text \<open>
  An occupation group of the ontology: \<^verbatim>\<open>group_data.get("signal_domains", [])\<close> and
  \<^verbatim>\<open>.get("example_titles", [])\<close> are the only reads, so a missing key is the
  empty list.
\<close>

record soc_group =
  signal_domains :: "string list"
  example_titles :: "string list"

text \<open>
  The ontology is a dictionary whose value under \<^verbatim>\<open>"SignalDomains"\<close> is itself a
  dictionary object, which the analysis assigns to. That object lives in the store, at
  the reference the ontology holds; the ontology dictionary itself and the
  \<^verbatim>\<open>"SOC_Groups"\<close> value are only read, and are held by value. A key that is
  absent is \<open>None\<close>.
\<close>

type_synonym ref = nat

type_synonym store = "ref \<Rightarrow> string list dict"

record ontology =
  SignalDomains :: "ref option"
  SOC_Groups :: "soc_group dict option"

text \<open>\<^verbatim>\<open>ontology.copy()\<close>: a new dictionary with the same values under the same keys,
  so the same reference under \<^verbatim>\<open>"SignalDomains"\<close>.\<close>

definition copy :: "ontology \<Rightarrow> ontology" where
  "copy ont = \<lparr>SignalDomains = SignalDomains ont, SOC_Groups = SOC_Groups ont\<rparr>"

text \<open>\<^verbatim>\<open>enhanced_ontology.get("SOC_Groups", {})\<close>\<close>

definition soc_groups_of :: "ontology \<Rightarrow> soc_group dict" where
  "soc_groups_of ont = (case SOC_Groups ont of None \<Rightarrow> [] | Some g \<Rightarrow> g)"

datatype error = NoResumeText | NoJdText | NoResumeContent | NoJdContent | KeyError

record analysis_result =
  predicted_soc_group :: "string option"
  soc_scores :: "score dict"
  critical_domains :: "string list"
  domain_scores :: "score dict"
  domain_gaps :: "string list dict"
  overall_score :: score
  total_jd_keywords :: nat
  matched_keywords :: nat
  resume_text :: string
  jd_text :: string
  suggested_titles :: "string list"

section \<open>\<^verbatim>\<open>run_enhanced_ontological_analysis\<close>\<close>

subsection \<open>Business terms and the keyword index\<close>

definition business_term_mappings :: "string list dict" where
  "business_term_mappings =
     [(''Leadership & Influence'',
       [''project management'', ''project manager'', ''team leadership'',
        ''stakeholder management'', ''scrum master'', ''product owner'', ''manager'',
        ''director'', ''coordination'', ''planning'', ''execution'', ''delivery'',
        ''milestone'', ''leadership'', ''vision'', ''strategy'', ''oversight'',
        ''team lead'', ''cross-functional'', ''program management'', ''change management'']),
      (''Systems & Structure'',
       [''agile'', ''scrum'', ''waterfall'', ''kanban'', ''methodology'', ''process'',
        ''workflow'', ''SDLC'', ''requirements'', ''specifications'', ''deliverables'',
        ''timeline'', ''budget'', ''scope'', ''quality assurance'', ''testing'',
        ''deployment'', ''implementation'', ''integration'', ''project lifecycle'',
        ''framework'', ''standards'', ''configuration'', ''governance'']),
      (''AI & Technical Literacy'',
       [''technology'', ''software'', ''IT'', ''information technology'', ''technical'',
        ''systems'', ''development'', ''programming'', ''database'', ''cloud'',
        ''security'', ''networking'', ''applications'', ''digital'', ''engineering'',
        ''hardware'', ''technical requirements'']),
      (''Communication Strategy'',
       [''communication'', ''collaboration'', ''documentation'', ''reporting'', ''meeting'',
        ''stakeholder'', ''team'', ''coordination'', ''facilitation'', ''presentation'',
        ''client'', ''customer'', ''vendor'', ''partner'', ''interdisciplinary'']),
      (''Data & Evidence'',
       [''analysis'', ''reporting'', ''metrics'', ''performance'', ''measurement'',
        ''evaluation'', ''quality'', ''testing'', ''documentation'', ''data'', ''tracking'',
        ''monitoring'', ''KPIs'', ''dashboard'', ''assessment'', ''review'', ''audit'',
        ''validation'']),
      (''Outcomes & Impact'',
       [''results'', ''outcomes'', ''success'', ''performance'', ''improvement'',
        ''efficiency'', ''productivity'', ''ROI'', ''value'', ''impact'', ''goals'',
        ''objectives'', ''delivery'', ''achievements'', ''optimization'',
        ''cost reduction'', ''benefit'']),
      (''Risk & Compliance'',
       [''risk management'', ''compliance'', ''standards'', ''policies'', ''procedures'',
        ''security'', ''safety'', ''audit'', ''quality'', ''regulatory'', ''governance'']),
      (''Adaptation & Flexibility'',
       [''change'', ''flexibility'', ''adaptability'', ''problem solving'',
        ''troubleshooting'', ''innovation'', ''improvement'', ''scalability'', ''agility'',
        ''evolution'']),
      (''Collaboration & Relational Work'',
       [''teamwork'', ''collaboration'', ''partnership'', ''coordination'', ''support'',
        ''communication'', ''relationship'', ''shared goals'', ''trust''])]"

text \<open>
  The loop over \<^verbatim>\<open>business_term_mappings.items()\<close>, run on the dictionary object
  \<^verbatim>\<open>enhanced_ontology["SignalDomains"]\<close>: both branches of its \<^verbatim>\<open>if\<close> make the
  same assignment.
\<close>

definition add_business_terms :: "string list dict \<Rightarrow> string list dict" where
  "add_business_terms sd =
     fold (\<lambda>(domain, business_terms) d.
             if has_key d domain then dict_set domain business_terms d
             else dict_set domain business_terms d)
          business_term_mappings sd"

text \<open>The keyword set of one domain: every phrase lowercased, and each of its words.\<close>

definition domain_keywords_of :: "string list \<Rightarrow> string set" where
  "domain_keywords_of keywords =
     fold (\<lambda>phrase acc. let phrase_lower = lower phrase
                         in insert phrase_lower acc \<union> set (split phrase_lower))
          keywords {}"

definition domain_keyword_map_of :: "string list dict \<Rightarrow> string set dict" where
  "domain_keyword_map_of signal_doms =
     fold (\<lambda>(domain_name, keywords) m. dict_set domain_name (domain_keywords_of keywords) m)
          signal_doms []"

subsection \<open>Occupation group prediction\<close>

definition it_indicators :: "string list" where
  "it_indicators =
     [''project manager'', ''project management'', ''it project'', ''agile'', ''scrum'',
      ''kanban'', ''waterfall'', ''stakeholder'', ''deliverable'', ''milestone'', ''sdlc'',
      ''requirements'', ''software development'', ''technical'', ''technology'']"

definition management_indicators :: "string list" where
  "management_indicators =
     [''team lead'', ''leadership'', ''manager'', ''management'', ''director'', ''supervisor'',
      ''coordination'', ''planning'', ''strategy'', ''oversight'', ''cross-functional'']"

definition it_mgmt_scores :: "score dict" where
  "it_mgmt_scores =
     [(''Management Occupations'', 85),
      (''Computer and Mathematical Occupations'', 75),
      (''AI, Data & UX Leadership Occupations'', 70),
      (''Life, Physical, and Social Science Occupations'', 15),
      (''Education, Training, and Library Occupations'', 10)]"

definition it_scores :: "score dict" where
  "it_scores =
     [(''Computer and Mathematical Occupations'', 80),
      (''Management Occupations'', 65),
      (''AI, Data & UX Leadership Occupations'', 60),
      (''Life, Physical, and Social Science Occupations'', 20),
      (''Education, Training, and Library Occupations'', 15)]"

definition mgmt_scores :: "score dict" where
  "mgmt_scores =
     [(''Management Occupations'', 75),
      (''Computer and Mathematical Occupations'', 50),
      (''Life, Physical, and Social Science Occupations'', 25),
      (''Education, Training, and Library Occupations'', 20)]"

text \<open>
  The state of the prediction: \<^verbatim>\<open>best_soc_group\<close>, \<^verbatim>\<open>max_soc_score\<close> and
  \<^verbatim>\<open>soc_scores\<close>.
\<close>

type_synonym soc_state = "string option \<times> score \<times> score dict"

text \<open>\<^verbatim>\<open>soc_override and soc_override != "Auto Detect" and soc_override in soc_groups\<close>\<close>

definition override_applies :: "string option \<Rightarrow> soc_group dict \<Rightarrow> bool" where
  "override_applies soc_override soc_groups =
     (case soc_override of
        None \<Rightarrow> False
      | Some name \<Rightarrow> name \<noteq> [] \<and> name \<noteq> ''Auto Detect'' \<and> has_key soc_groups name)"

text \<open>
  The inner loop of the fallback over one group's signal domains: the list
  \<^verbatim>\<open>domain_scores\<close> it collects. \<^verbatim>\<open>triggered_domains\<close> is the length of that list.
\<close>

definition triggered_scores ::
  "string set dict \<Rightarrow> string set \<Rightarrow> string set \<Rightarrow> soc_group \<Rightarrow> score list" where
  "triggered_scores domain_keyword_map jd_words resume_words group_data =
     concat (map (\<lambda>domain.
        case map_of domain_keyword_map domain of
          None \<Rightarrow> []
        | Some domain_keywords \<Rightarrow>
            let domain_jd_keywords = domain_keywords \<inter> jd_words
            in if domain_jd_keywords \<noteq> {}
               then [fdiv (of_nat (card (domain_jd_keywords \<inter> resume_words)))
                             (of_nat (card domain_jd_keywords))]
               else [])
        (signal_domains group_data))"

text \<open>
  The \<^verbatim>\<open>if\<close>/\<^verbatim>\<open>elif\<close> chain on the group name: \<^verbatim>\<open>score *= 0.2\<close> and so
  on, the factor being the float the literal denotes; without a match the score stays.
\<close>

definition apply_bias :: "string \<Rightarrow> score \<Rightarrow> score" where
  "apply_bias group_name s =
     (if any_in [''life'', ''physical'', ''social'', ''science''] (lower group_name)
      then fmul s (fl (2 / 10))
      else if any_in [''education'', ''training'', ''library''] (lower group_name)
      then fmul s (fl (4 / 10))
      else if str_in ''management'' (lower group_name) then fmul s (fl (15 / 10))
      else if str_in ''computer'' (lower group_name) then fmul s (fl (13 / 10))
      else s)"

definition group_score ::
  "string set dict \<Rightarrow> string set \<Rightarrow> string set \<Rightarrow> string \<Rightarrow> soc_group \<Rightarrow> score" where
  "group_score domain_keyword_map jd_words resume_words group_name group_data =
     (let ds = triggered_scores domain_keyword_map jd_words resume_words group_data
      in if length ds \<ge> 1
         then let avg_domain_score =
                    (if ds \<noteq> [] then fdiv (fsum ds) (float_of_nat (length ds)) else 0)
              in min (apply_bias group_name (fmul avg_domain_score 100)) 100
         else 0)"

definition fallback_step ::
  "string set dict \<Rightarrow> string set \<Rightarrow> string set \<Rightarrow> string \<times> soc_group \<Rightarrow> soc_state
     \<Rightarrow> soc_state" where
  "fallback_step domain_keyword_map jd_words resume_words entry st =
     (case (entry, st) of ((group_name, group_data), (best, max_soc_score, scores)) \<Rightarrow>
        let s = group_score domain_keyword_map jd_words resume_words group_name group_data;
            scores' = dict_set group_name (round1 s) scores
        in if s > max_soc_score then (Some group_name, s, scores')
           else (best, max_soc_score, scores'))"

definition predict_soc ::
  "string \<Rightarrow> string set \<Rightarrow> string set \<Rightarrow> string set dict \<Rightarrow> soc_group dict
     \<Rightarrow> string option \<Rightarrow> soc_state" where
  "predict_soc j_text jd_words resume_words domain_keyword_map soc_groups soc_override =
     (if override_applies soc_override soc_groups
      then (soc_override, 100,
            fold (\<lambda>group_name scores.
                    dict_set group_name (if Some group_name = soc_override then 100 else 0) scores)
                 (keys soc_groups) [])
      else
        let jd_lower = lower j_text;
            it_score = count_in it_indicators jd_lower;
            mgmt_score = count_in management_indicators jd_lower
        in if it_score \<ge> 3 \<and> mgmt_score \<ge> 2
           then (Some ''Management Occupations'', 85, it_mgmt_scores)
           else if it_score \<ge> 2
           then (Some ''Computer and Mathematical Occupations'', 80, it_scores)
           else if mgmt_score \<ge> 2
           then (Some ''Management Occupations'', 75, mgmt_scores)
           else fold (fallback_step domain_keyword_map jd_words resume_words) soc_groups
                  (None, - 1, []))"

text \<open>Every group of the ontology that has no score yet gets the score 0.\<close>

definition fill_missing :: "string list \<Rightarrow> score dict \<Rightarrow> score dict" where
  "fill_missing group_names scores =
     fold (\<lambda>group_name sc. if has_key sc group_name then sc else dict_set group_name 0 sc)
          group_names scores"

subsection \<open>Domain scores and gaps\<close>

text \<open>
  \<^verbatim>\<open>keyword.lower() in resume_text_lower\<close>, for the keywords of a set: those found as
  a substring of the resume text, and those not found.
\<close>

definition found_in :: "string \<Rightarrow> string set \<Rightarrow> string set" where
  "found_in resume_text_lower kws = Set.filter (\<lambda>keyword. str_in (lower keyword) resume_text_lower) kws"

definition missing_in :: "string \<Rightarrow> string set \<Rightarrow> string set" where
  "missing_in resume_text_lower kws =
     Set.filter (\<lambda>keyword. \<not> str_in (lower keyword) resume_text_lower) kws"

definition high_priority_terms :: "string list" where
  "high_priority_terms =
     [''project'', ''management'', ''agile'', ''scrum'', ''team'', ''stakeholder'',
      ''delivery'', ''planning'', ''requirements'', ''technical'', ''strategy'']"

definition is_business :: "string \<Rightarrow> bool" where
  "is_business gap = list_ex (\<lambda>priority_term. str_in priority_term gap) high_priority_terms"

text \<open>
  The gaps of one domain, ranked and cut: \<open>gap_list\<close> is the set \<^verbatim>\<open>gaps\<close> in the
  order the \<^verbatim>\<open>for\<close> loop visits it.
\<close>

definition rank_gaps :: "string list \<Rightarrow> string list" where
  "rank_gaps gap_list =
     (let business_priority = filter is_business gap_list;
          other_priority = filter (\<lambda>gap. \<not> is_business gap) gap_list;
          sorted_gaps = business_priority @ other_priority
      in take 20 sorted_gaps)"

text \<open>
  The state of the scoring loop: \<^verbatim>\<open>domain_scores\<close>, \<^verbatim>\<open>domain_gaps\<close> and
  \<^verbatim>\<open>all_jd_keywords\<close>.
\<close>

type_synonym scoring_state = "score dict \<times> string list dict \<times> string set"

text \<open>
  One turn of the loop over \<^verbatim>\<open>domain_keyword_map.items()\<close>. Python does not fix the
  order in which a \<^verbatim>\<open>set\<close> of strings is visited; \<open>iter\<close> gives it.
\<close>

definition score_step ::
  "(string set \<Rightarrow> string list) \<Rightarrow> string set \<Rightarrow> string \<Rightarrow> string \<times> string set
     \<Rightarrow> scoring_state \<Rightarrow> scoring_state" where
  "score_step iter jd_words resume_text_lower entry st =
     (case (entry, st) of ((domain_name, domain_keywords), (scores, gaps_by_domain, all_jd_keywords)) \<Rightarrow>
        let domain_jd_keywords = domain_keywords \<inter> jd_words
        in if domain_jd_keywords \<noteq> {}
           then
             let matched = found_in resume_text_lower domain_jd_keywords;
                 s = fmul (fdiv (of_nat (card matched)) (of_nat (card domain_jd_keywords))) 100;
                 gaps = missing_in resume_text_lower domain_jd_keywords
             in (dict_set domain_name (round1 s) scores,
                 if gaps \<noteq> {} then dict_set domain_name (rank_gaps (iter gaps)) gaps_by_domain
                 else gaps_by_domain,
                 all_jd_keywords \<union> domain_jd_keywords)
           else st)"

definition score_domains ::
  "(string set \<Rightarrow> string list) \<Rightarrow> string set \<Rightarrow> string \<Rightarrow> string set dict \<Rightarrow> scoring_state" where
  "score_domains iter jd_words resume_text_lower domain_keyword_map =
     fold (score_step iter jd_words resume_text_lower) domain_keyword_map ([], [], {})"

subsection \<open>Overall score\<close>

definition overall_of :: "string \<Rightarrow> string \<Rightarrow> string set \<Rightarrow> score" where
  "overall_of j_text resume_text_lower all_jd_keywords =
     (if all_jd_keywords \<noteq> {}
      then
        let overall_matched = found_in resume_text_lower all_jd_keywords;
            base_score =
              fmul (fdiv (of_nat (card overall_matched)) (of_nat (card all_jd_keywords))) 100;
            business_boost =
              (if any_in [''project manager'', ''agile'', ''scrum'', ''stakeholder''] (lower j_text)
               then fl (13 / 10) else 1)
        in min (fmul base_score business_boost) 100
      else 0)"

text \<open>\<^verbatim>\<open>text[:500] + "..." if len(text) > 500 else text\<close>\<close>

definition excerpt :: "string \<Rightarrow> string" where
  "excerpt text = (if length text > 500 then take 500 text @ ''...'' else text)"

subsection \<open>The analysis\<close>

text \<open>
  The analysis from the two extracted texts on: \<open>r_text\<close> and \<open>j_text\<close> are what
  \<^verbatim>\<open>extract_text_from_file\<close> returned for the resume and for the job description.
  The four early \<^verbatim>\<open>return None\<close> are the first four errors; \<open>KeyError\<close> is the
  exception of \<^verbatim>\<open>enhanced_ontology["SignalDomains"]\<close> on an ontology without that
  key. The store is returned as the run leaves it.
\<close>

definition run_enhanced_ontological_analysis ::
  "(string set \<Rightarrow> string list) \<Rightarrow> store \<Rightarrow> string \<Rightarrow> string \<Rightarrow> ontology \<Rightarrow> string option
     \<Rightarrow> (error + analysis_result) \<times> store" where
  "run_enhanced_ontological_analysis iter st r_text j_text ont soc_override =
     (if r_text = [] then (Inl NoResumeText, st)
      else if j_text = [] then (Inl NoJdText, st)
      else
        let resume_words = clean_and_extract_words r_text;
            jd_words = clean_and_extract_words j_text
        in if resume_words = {} then (Inl NoResumeContent, st)
           else if jd_words = {} then (Inl NoJdContent, st)
           else
             let enhanced_ontology = copy ont
             in case SignalDomains enhanced_ontology of
                  None \<Rightarrow> (Inl KeyError, st)
                | Some a \<Rightarrow>
                    let st' = st(a := add_business_terms (st a));
                        signal_doms = st' a;
                        soc_groups = soc_groups_of enhanced_ontology;
                        domain_keyword_map = domain_keyword_map_of signal_doms;
                        (best_soc_group, max_soc_score, scores0) =
                          predict_soc j_text jd_words resume_words domain_keyword_map soc_groups
                            soc_override;
                        scores = fill_missing (keys soc_groups) scores0;
                        resume_text_lower = lower r_text;
                        (dom_scores, dom_gaps, all_jd_keywords) =
                          score_domains iter jd_words resume_text_lower domain_keyword_map;
                        overall = overall_of j_text resume_text_lower all_jd_keywords;
                        best_data = (case best_soc_group of
                                       None \<Rightarrow> None
                                     | Some g \<Rightarrow> map_of soc_groups g)
                    in (Inr \<lparr>predicted_soc_group = best_soc_group,
                             soc_scores = scores,
                             critical_domains =
                               (case best_data of None \<Rightarrow> [] | Some d \<Rightarrow> signal_domains d),
                             domain_scores = dom_scores,
                             domain_gaps = dom_gaps,
                             overall_score = round1 overall,
                             total_jd_keywords = card all_jd_keywords,
                             matched_keywords = card (found_in resume_text_lower all_jd_keywords),
                             resume_text = excerpt r_text,
                             jd_text = excerpt j_text,
                             suggested_titles =
                               (case best_data of None \<Rightarrow> [] | Some d \<Rightarrow> example_titles d)\<rparr>,
                        st'))"

section \<open>\<^verbatim>\<open>calculate_trust_visibility_scores\<close>\<close>


section \<open>Notions the properties speak of\<close>

text \<open>
  The keyword index of a run, \<^verbatim>\<open>domain_keyword_map\<close>: it is built from the
  \<^verbatim>\<open>"SignalDomains"\<close> object after the business terms went in.
\<close>

definition enhanced_keyword_map :: "store \<Rightarrow> ontology \<Rightarrow> string set dict" where
  "enhanced_keyword_map st ont =
     (case SignalDomains ont of
        None \<Rightarrow> []
      | Some a \<Rightarrow> domain_keyword_map_of (add_business_terms (st a)))"

text \<open>\<^verbatim>\<open>domain_jd_keywords\<close> of a domain: its keywords that are in \<^verbatim>\<open>jd_words\<close>.\<close>

definition domain_jd_keywords :: "store \<Rightarrow> ontology \<Rightarrow> string \<Rightarrow> string \<Rightarrow> string set" where
  "domain_jd_keywords st ont j_text domain =
     dict_get (enhanced_keyword_map st ont) domain {} \<inter> clean_and_extract_words j_text"

text \<open>
  A visiting order for sets: every element of a finite set is visited, and once.
\<close>

definition visits_each_once :: "(string set \<Rightarrow> string list) \<Rightarrow> bool" where
  "visits_each_once iter = (\<forall>S. finite S \<longrightarrow> set (iter S) = S \<and> distinct (iter S))"

text \<open>
  The override names an occupation group of the ontology: the override is given and is a
  key of \<^verbatim>\<open>"SOC_Groups"\<close>.
\<close>

definition names_group :: "string option \<Rightarrow> soc_group dict \<Rightarrow> bool" where
  "names_group soc_override soc_groups =
     (case soc_override of None \<Rightarrow> False | Some name \<Rightarrow> has_key soc_groups name)"

section \<open>Sample inputs\<close>

text \<open>A store whose \<^verbatim>\<open>"SignalDomains"\<close> objects are all empty dictionaries.\<close>

definition empty_domains :: store where
  "empty_domains = (\<lambda>a. [])"

text \<open>A store with one domain of twenty-one keywords.\<close>

definition languages :: "string list" where
  "languages =
     [''python'', ''java'', ''kotlin'', ''swift'', ''rust'', ''golang'', ''ruby'', ''perl'',
      ''scala'', ''haskell'', ''erlang'', ''elixir'', ''clojure'', ''fortran'', ''cobol'',
      ''pascal'', ''matlab'', ''julia'', ''lua'', ''dart'', ''groovy'']"

definition language_domains :: store where
  "language_domains = (\<lambda>a. [(''Programming Languages'', languages)])"

definition sample_groups :: "soc_group dict" where
  "sample_groups =
     [(''Management Occupations'',
       \<lparr>signal_domains = [''Leadership & Influence'', ''Systems & Structure''],
        example_titles = [''Project Manager'']\<rparr>),
      (''Computer and Mathematical Occupations'',
       \<lparr>signal_domains = [''AI & Technical Literacy''],
        example_titles = [''Software Developer'']\<rparr>)]"

definition sample_ontology :: ontology where
  "sample_ontology = \<lparr>SignalDomains = Some 0, SOC_Groups = Some sample_groups\<rparr>"

definition no_groups_ontology :: ontology where
  "no_groups_ontology = \<lparr>SignalDomains = Some 0, SOC_Groups = Some []\<rparr>"

text \<open>An ontology with an occupation group that bears the name of the selector's default.\<close>

definition auto_detect_ontology :: ontology where
  "auto_detect_ontology =
     \<lparr>SignalDomains = Some 0,
      SOC_Groups = Some [(''Auto Detect'', \<lparr>signal_domains = [], example_titles = []\<rparr>)]\<rparr>"

definition chef_resume :: string where
  "chef_resume = ''Experienced pastry chef''"


definition team_jd :: string where
  "team_jd = ''Seeking a director with vision for our team''"

definition languages_jd :: string where
  "languages_jd = ''python java kotlin swift rust golang ruby perl scala haskell erlang elixir clojure fortran cobol pascal matlab julia lua dart groovy''"

definition agile_manager_jd :: string where
  "agile_manager_jd = ''Agile project manager for scrum and kanban teams, leadership and planning''"

definition short_words_jd :: string where
  "short_words_jd = ''we do it''"

text \<open>The run on the twenty-one languages, against a resume that names none of them.\<close>

definition languages_run :: "(error + analysis_result) \<times> store" where
  "languages_run =
     run_enhanced_ontological_analysis sorted_list_of_set language_domains chef_resume
       languages_jd sample_ontology None"

text \<open>The sample run, and its store afterwards.\<close>

definition sample_run :: "(error + analysis_result) \<times> store" where
  "sample_run =
     run_enhanced_ontological_analysis sorted_list_of_set empty_domains chef_resume team_jd
       sample_ontology None"

text \<open>A job description with IT and management phrases, against an ontology without groups.\<close>

definition agile_run :: "(error + analysis_result) \<times> store" where
  "agile_run =
     run_enhanced_ontological_analysis sorted_list_of_set empty_domains chef_resume
       agile_manager_jd no_groups_ontology None"

text \<open>The override \<^verbatim>\<open>"Auto Detect"\<close>, against an ontology that has a group of that name.\<close>

definition auto_detect_run :: "(error + analysis_result) \<times> store" where
  "auto_detect_run =
     run_enhanced_ontological_analysis sorted_list_of_set empty_domains chef_resume
       agile_manager_jd auto_detect_ontology (Some ''Auto Detect'')"

section \<open>Basic facts\<close>

lemma finite_clean_and_extract_words: "finite (clean_and_extract_words t)"
  by (simp add: clean_and_extract_words_def Let_def)

lemma clean_and_extract_words_Nil: "clean_and_extract_words [] = {}"
  by (simp add: clean_and_extract_words_def)

subsection \<open>Rounding to a float\<close>
















subsection \<open>Dictionaries\<close>

lemma map_of_dict_set: "map_of (dict_set k v d) = (map_of d)(k \<mapsto> v)"
  by (simp add: dict_set_def update_conv')

lemma keys_dict_set: "set (keys (dict_set k v d)) = insert k (set (keys d))"
  by (simp add: dict_set_def keys_def update_keys) auto

lemma has_key_map_of: "has_key d k \<longleftrightarrow> map_of d k \<noteq> None"
  by (simp add: has_key_def keys_def map_of_eq_None_iff)

lemma distinct_dict_set: "distinct (keys d) \<Longrightarrow> distinct (keys (dict_set k v d))"
  by (simp add: dict_set_def keys_def distinct_update)

lemma set_dict_set: "set (dict_set k v d) \<subseteq> insert (k, v) (set d)"
  unfolding dict_set_def by (induction d) auto

lemma score_step_eq:
  "score_step iter jw rl (d, kws) (sc, gp, al) =
     (if kws \<inter> jw \<noteq> {}
      then (dict_set d (round1 (fmul (fdiv (of_nat (card (found_in rl (kws \<inter> jw)))) (of_nat (card (kws \<inter> jw)))) 100)) sc,
            (if missing_in rl (kws \<inter> jw) \<noteq> {}
             then dict_set d (rank_gaps (iter (missing_in rl (kws \<inter> jw)))) gp else gp),
            al \<union> (kws \<inter> jw))
      else (sc, gp, al))"
  by (simp add: score_step_def Let_def)

lemma fold_score_gaps:
  assumes "distinct (map fst xs)"
  shows "map_of (fst (snd (fold (score_step iter jw rl) xs (sc, gp, al)))) d =
    (case map_of xs d of
       None \<Rightarrow> map_of gp d
     | Some kws \<Rightarrow>
         if kws \<inter> jw \<noteq> {} \<and> missing_in rl (kws \<inter> jw) \<noteq> {}
         then Some (rank_gaps (iter (missing_in rl (kws \<inter> jw))))
         else map_of gp d)"
  using assms
proof (induction xs arbitrary: sc gp al)
  case Nil
  then show ?case by simp
next
  case (Cons x xs)
  obtain d' kws' where x: "x = (d', kws')" by (cases x)
  from Cons.prems have dist: "distinct (map fst xs)" and notin: "d' \<notin> fst ` set xs"
    by (simp_all add: x)
  have none: "map_of xs d' = None" using notin by (simp add: map_of_eq_None_iff)
  show ?case
    using Cons.IH[OF dist] none
    by (cases "d = d'") (auto simp: x score_step_eq map_of_dict_set split: option.splits)
qed

lemma fold_score_scores:
  assumes "distinct (map fst xs)"
  shows "map_of (fst (fold (score_step iter jw rl) xs (sc, gp, al))) d =
    (case map_of xs d of
       None \<Rightarrow> map_of sc d
     | Some kws \<Rightarrow>
         if kws \<inter> jw \<noteq> {}
         then Some (round1 (fmul (fdiv (of_nat (card (found_in rl (kws \<inter> jw)))) (of_nat (card (kws \<inter> jw)))) 100))
         else map_of sc d)"
  using assms
proof (induction xs arbitrary: sc gp al)
  case Nil
  then show ?case by simp
next
  case (Cons x xs)
  obtain d' kws' where x: "x = (d', kws')" by (cases x)
  from Cons.prems have dist: "distinct (map fst xs)" and notin: "d' \<notin> fst ` set xs"
    by (simp_all add: x)
  have none: "map_of xs d' = None" using notin by (simp add: map_of_eq_None_iff)
  show ?case
    using Cons.IH[OF dist] none
    by (cases "d = d'") (auto simp: x score_step_eq map_of_dict_set split: option.splits)
qed

lemma fold_dict_set_distinct:
  "distinct (keys m) \<Longrightarrow> distinct (keys (fold (\<lambda>(k, v) m. dict_set k (f v) m) xs m))"
  by (induction xs arbitrary: m) (auto simp: distinct_dict_set)

lemma distinct_domain_keyword_map_of: "distinct (map fst (domain_keyword_map_of sd))"
  using fold_dict_set_distinct[of "[]" domain_keywords_of sd]
  by (simp add: domain_keyword_map_of_def keys_def)

lemma run_success:
  assumes "r_text \<noteq> []" "j_text \<noteq> []"
    and "clean_and_extract_words r_text \<noteq> {}" "clean_and_extract_words j_text \<noteq> {}"
    and "SignalDomains ont = Some a"
  shows "run_enhanced_ontological_analysis iter st r_text j_text ont soc_override =
    (let dkm = enhanced_keyword_map st ont;
         jw = clean_and_extract_words j_text;
         rw = clean_and_extract_words r_text;
         groups = soc_groups_of ont;
         pred = predict_soc j_text jw rw dkm groups soc_override;
         sd = score_domains iter jw (lower r_text) dkm;
         best_data = (case fst pred of None \<Rightarrow> None | Some g \<Rightarrow> map_of groups g)
     in (Inr \<lparr>predicted_soc_group = fst pred,
              soc_scores = fill_missing (keys groups) (snd (snd pred)),
              critical_domains = (case best_data of None \<Rightarrow> [] | Some d \<Rightarrow> signal_domains d),
              domain_scores = fst sd,
              domain_gaps = fst (snd sd),
              overall_score = round1 (overall_of j_text (lower r_text) (snd (snd sd))),
              total_jd_keywords = card (snd (snd sd)),
              matched_keywords = card (found_in (lower r_text) (snd (snd sd))),
              resume_text = excerpt r_text,
              jd_text = excerpt j_text,
              suggested_titles = (case best_data of None \<Rightarrow> [] | Some d \<Rightarrow> example_titles d)\<rparr>,
         st(a := add_business_terms (st a))))"
  using assms
  by (simp add: run_enhanced_ontological_analysis_def enhanced_keyword_map_def copy_def
      soc_groups_of_def Let_def split: prod.splits)

lemma run_Inr_cases:
  assumes "run_enhanced_ontological_analysis iter st r_text j_text ont soc_override = (Inr res, st')"
  shows "r_text \<noteq> [] \<and> j_text \<noteq> [] \<and> clean_and_extract_words r_text \<noteq> {}
     \<and> clean_and_extract_words j_text \<noteq> {} \<and> (\<exists>a. SignalDomains ont = Some a)"
  using assms
  by (auto simp: run_enhanced_ontological_analysis_def copy_def Let_def
      split: if_splits option.splits prod.splits)

subsection \<open>Ranked gap lists\<close>

lemma length_rank_gaps: "length (rank_gaps xs) \<le> 20"
  by (simp add: rank_gaps_def Let_def)

lemma set_rank_gaps_subset: "set (rank_gaps xs) \<subseteq> set xs"
proof -
  have "set (take 20 (filter is_business xs @ filter (\<lambda>g. \<not> is_business g) xs))
      \<subseteq> set (filter is_business xs @ filter (\<lambda>g. \<not> is_business g) xs)"
    by (rule set_take_subset)
  then show ?thesis by (auto simp: rank_gaps_def Let_def)
qed

lemma sum_length_filter_compl':
  "length (filter P xs) + length (filter (\<lambda>x. \<not> P x) xs) = length xs"
  by (induction xs) auto

lemma set_rank_gaps_short:
  assumes "length xs \<le> 20"
  shows "set (rank_gaps xs) = set xs"
proof -
  have "length (filter is_business xs @ filter (\<lambda>g. \<not> is_business g) xs) \<le> 20"
    using assms sum_length_filter_compl'[of is_business xs] by simp
  then have "rank_gaps xs = filter is_business xs @ filter (\<lambda>g. \<not> is_business g) xs"
    by (simp add: rank_gaps_def Let_def)
  then show ?thesis by auto
qed

lemma rank_gaps_business_first:
  assumes "i < length (rank_gaps xs)" "j < length (rank_gaps xs)"
    and "is_business (rank_gaps xs ! i)" "\<not> is_business (rank_gaps xs ! j)"
  shows "i < j"
proof -
  define bs where "bs = filter is_business xs"
  define os where "os = filter (\<lambda>g. \<not> is_business g) xs"
  define zs where "zs = bs @ os"
  have rg: "rank_gaps xs = take 20 zs"
    by (simp add: rank_gaps_def Let_def bs_def os_def zs_def)
  have i: "i < length (bs @ os)" and j: "j < length (bs @ os)"
    using assms(1,2) by (simp_all add: rg zs_def[symmetric])
  have ni: "rank_gaps xs ! i = (bs @ os) ! i" and nj: "rank_gaps xs ! j = (bs @ os) ! j"
    using assms(1,2) by (simp_all add: rg zs_def[symmetric])
  have "i < length bs"
  proof (rule ccontr)
    assume "\<not> i < length bs"
    then have "(bs @ os) ! i = os ! (i - length bs)" and "i - length bs < length os"
      using i by (simp_all add: nth_append)
    then have "(bs @ os) ! i \<in> set os" by simp
    then show False using assms(3) ni by (simp add: os_def)
  qed
  moreover have "\<not> j < length bs"
  proof
    assume "j < length bs"
    then have "(bs @ os) ! j \<in> set bs" by (simp add: nth_append)
    then show False using assms(4) nj by (simp add: bs_def)
  qed
  ultimately show ?thesis by simp
qed

subsection \<open>What the scoring loop keeps\<close>

lemma fold_score_gap_entries:
  assumes "(d, gs) \<in> set (fst (snd (fold (score_step iter jw rl) xs (sc, gp, al))))"
  shows "(d, gs) \<in> set gp \<or> (\<exists>ys. gs = rank_gaps ys)"
  using assms
proof (induction xs arbitrary: sc gp al)
  case Nil
  then show ?case by simp
next
  case (Cons x xs)
  obtain d' kws' where x: "x = (d', kws')" by (cases x)
  show ?case
  proof (cases "kws' \<inter> jw \<noteq> {} \<and> missing_in rl (kws' \<inter> jw) \<noteq> {}")
    case True
    from Cons.prems have "(d, gs) \<in> set (dict_set d' (rank_gaps (iter (missing_in rl (kws' \<inter> jw)))) gp)
        \<or> (\<exists>ys. gs = rank_gaps ys)"
      using True by (auto simp: x score_step_eq dest!: Cons.IH)
    then show ?thesis using set_dict_set by fastforce
  next
    case False
    from Cons.prems show ?thesis
      using False by (auto simp: x score_step_eq dest!: Cons.IH split: if_splits)
  qed
qed

lemma fold_score_keys:
  assumes "set (keys gp) \<subseteq> set (keys sc)"
  shows "set (keys (fst (snd (fold (score_step iter jw rl) xs (sc, gp, al)))))
     \<subseteq> set (keys (fst (fold (score_step iter jw rl) xs (sc, gp, al))))"
  using assms
proof (induction xs arbitrary: sc gp al)
  case Nil
  then show ?case by simp
next
  case (Cons x xs)
  obtain d' kws' where x: "x = (d', kws')" by (cases x)
  show ?case
    using Cons.prems
    by (auto simp: x score_step_eq keys_dict_set intro!: Cons.IH[THEN subsetD])
qed

lemma run_gap_entries:
  assumes "run_enhanced_ontological_analysis iter st r_text j_text ont soc_override = (Inr res, st')"
    and "(d, gs) \<in> set (domain_gaps res)"
  shows "\<exists>ys. gs = rank_gaps ys"
proof -
  from run_Inr_cases[OF assms(1)] obtain a where
    ok: "r_text \<noteq> []" "j_text \<noteq> []" "clean_and_extract_words r_text \<noteq> {}"
      "clean_and_extract_words j_text \<noteq> {}" "SignalDomains ont = Some a"
    by blast
  from assms(1) have "domain_gaps res = fst (snd (score_domains iter (clean_and_extract_words j_text)
      (lower r_text) (enhanced_keyword_map st ont)))"
    unfolding run_success[OF ok] by (auto simp: Let_def)
  with assms(2) show ?thesis
    unfolding score_domains_def using fold_score_gap_entries by fastforce
qed

subsection \<open>Looking a domain up in the results\<close>

lemma map_of_fold_dict_set:
  "map_of (fold (\<lambda>(k, v) m. dict_set k (f v) m) xs m) d =
     (case map_of (rev xs) d of None \<Rightarrow> map_of m d | Some v \<Rightarrow> Some (f v))"
proof (induction xs arbitrary: m)
  case Nil
  then show ?case by simp
next
  case (Cons x xs)
  obtain k v where x: "x = (k, v)" by (cases x)
  show ?case
    by (simp add: x Cons.IH map_of_dict_set map_add_def split: option.splits)
qed

lemma map_of_domain_keyword_map_of:
  "map_of (domain_keyword_map_of sd) d = map_option domain_keywords_of (map_of (rev sd) d)"
  by (simp add: domain_keyword_map_of_def map_of_fold_dict_set split: option.splits)

lemma map_of_enhanced_keyword_map:
  "SignalDomains ont = Some a \<Longrightarrow>
   map_of (enhanced_keyword_map st ont) d =
     map_option domain_keywords_of (map_of (rev (add_business_terms (st a))) d)"
  by (simp add: enhanced_keyword_map_def map_of_domain_keyword_map_of)

lemma distinct_enhanced_keyword_map: "distinct (map fst (enhanced_keyword_map st ont))"
  by (simp add: enhanced_keyword_map_def distinct_domain_keyword_map_of split: option.splits)

lemma run_fields:
  assumes "run_enhanced_ontological_analysis iter st r_text j_text ont soc_override = (Inr res, st')"
  shows "domain_scores res = fst (score_domains iter (clean_and_extract_words j_text)
            (lower r_text) (enhanced_keyword_map st ont))"
    and "domain_gaps res = fst (snd (score_domains iter (clean_and_extract_words j_text)
            (lower r_text) (enhanced_keyword_map st ont)))"
    and "predicted_soc_group res = fst (predict_soc j_text (clean_and_extract_words j_text)
            (clean_and_extract_words r_text) (enhanced_keyword_map st ont) (soc_groups_of ont)
            soc_override)"
    and "soc_scores res = fill_missing (keys (soc_groups_of ont))
            (snd (snd (predict_soc j_text (clean_and_extract_words j_text)
               (clean_and_extract_words r_text) (enhanced_keyword_map st ont) (soc_groups_of ont)
               soc_override)))"
    and "overall_score res = round1 (overall_of j_text (lower r_text)
            (snd (snd (score_domains iter (clean_and_extract_words j_text)
               (lower r_text) (enhanced_keyword_map st ont)))))"
    and "critical_domains res =
           (case (case predicted_soc_group res of None \<Rightarrow> None
                  | Some g \<Rightarrow> map_of (soc_groups_of ont) g) of
              None \<Rightarrow> [] | Some d \<Rightarrow> signal_domains d)"
    and "\<exists>a. SignalDomains ont = Some a \<and> st' = st(a := add_business_terms (st a))"
proof -
  from run_Inr_cases[OF assms] obtain a where
    ok: "r_text \<noteq> []" "j_text \<noteq> []" "clean_and_extract_words r_text \<noteq> {}"
      "clean_and_extract_words j_text \<noteq> {}" "SignalDomains ont = Some a"
    by blast
  note eq = assms[unfolded run_success[OF ok] Let_def, simplified]
  show "domain_scores res = fst (score_domains iter (clean_and_extract_words j_text)
            (lower r_text) (enhanced_keyword_map st ont))"
    using eq by auto
  show "domain_gaps res = fst (snd (score_domains iter (clean_and_extract_words j_text)
            (lower r_text) (enhanced_keyword_map st ont)))"
    using eq by auto
  show p: "predicted_soc_group res = fst (predict_soc j_text (clean_and_extract_words j_text)
            (clean_and_extract_words r_text) (enhanced_keyword_map st ont) (soc_groups_of ont)
            soc_override)"
    using eq by auto
  show "soc_scores res = fill_missing (keys (soc_groups_of ont))
            (snd (snd (predict_soc j_text (clean_and_extract_words j_text)
               (clean_and_extract_words r_text) (enhanced_keyword_map st ont) (soc_groups_of ont)
               soc_override)))"
    using eq by auto
  show "overall_score res = round1 (overall_of j_text (lower r_text)
            (snd (snd (score_domains iter (clean_and_extract_words j_text)
               (lower r_text) (enhanced_keyword_map st ont)))))"
    using eq by auto
  show "critical_domains res =
           (case (case predicted_soc_group res of None \<Rightarrow> None
                  | Some g \<Rightarrow> map_of (soc_groups_of ont) g) of
              None \<Rightarrow> [] | Some d \<Rightarrow> signal_domains d)"
    using eq by auto
  show "\<exists>a. SignalDomains ont = Some a \<and> st' = st(a := add_business_terms (st a))"
    using eq ok(5) by auto
qed

lemma run_gaps_lookup:
  assumes "run_enhanced_ontological_analysis iter st r_text j_text ont soc_override = (Inr res, st')"
  shows "map_of (domain_gaps res) d =
    (case map_of (enhanced_keyword_map st ont) d of
       None \<Rightarrow> None
     | Some kws \<Rightarrow>
         if kws \<inter> clean_and_extract_words j_text \<noteq> {}
            \<and> missing_in (lower r_text) (kws \<inter> clean_and_extract_words j_text) \<noteq> {}
         then Some (rank_gaps (iter (missing_in (lower r_text) (kws \<inter> clean_and_extract_words j_text))))
         else None)"
  unfolding run_fields(2)[OF assms] score_domains_def
  by (simp add: fold_score_gaps[OF distinct_enhanced_keyword_map] split: option.splits)

lemma run_scores_lookup:
  assumes "run_enhanced_ontological_analysis iter st r_text j_text ont soc_override = (Inr res, st')"
  shows "map_of (domain_scores res) d =
    (case map_of (enhanced_keyword_map st ont) d of
       None \<Rightarrow> None
     | Some kws \<Rightarrow>
         if kws \<inter> clean_and_extract_words j_text \<noteq> {}
         then Some (round1 (fmul (fdiv
                      (of_nat (card (found_in (lower r_text) (kws \<inter> clean_and_extract_words j_text))))
                      (of_nat (card (kws \<inter> clean_and_extract_words j_text)))) 100))
         else None)"
  unfolding run_fields(1)[OF assms] score_domains_def
  by (simp add: fold_score_scores[OF distinct_enhanced_keyword_map] split: option.splits)

lemma run_exists:
  assumes "r_text \<noteq> []" "j_text \<noteq> []"
    and "clean_and_extract_words r_text \<noteq> {}" "clean_and_extract_words j_text \<noteq> {}"
    and "SignalDomains ont = Some a"
  shows "\<exists>res. run_enhanced_ontological_analysis iter st r_text j_text ont soc_override =
           (Inr res, st(a := add_business_terms (st a)))"
  unfolding run_success[OF assms] Let_def by blast

subsection \<open>The sample run\<close>

lemma sample_texts:
  "chef_resume \<noteq> []" "team_jd \<noteq> []"
  "clean_and_extract_words chef_resume \<noteq> {}" "clean_and_extract_words team_jd \<noteq> {}"
  "SignalDomains sample_ontology = Some 0"
  by (simp add: chef_resume_def, simp add: team_jd_def, code_simp, code_simp,
      simp add: sample_ontology_def)

lemma leadership_terms:
  "map_of (rev (add_business_terms (empty_domains 0))) ''Leadership & Influence'' =
     Some (snd (hd business_term_mappings))"
  by code_simp

lemma sample_leadership_jd_keywords:
  "domain_keywords_of (snd (hd business_term_mappings)) \<inter> clean_and_extract_words team_jd
     = set [''director'', ''team'', ''vision'']"
  by code_simp

lemma sample_leadership_missing:
  "missing_in (lower chef_resume) (set [''director'', ''team'', ''vision''])
     = set [''director'', ''team'', ''vision'']"
  by code_simp

lemma sample_leadership_order:
  "sorted_list_of_set (set [''director'', ''team'', ''vision'']) = [''director'', ''team'', ''vision'']"
  by code_simp

lemma sample_leadership_ranked:
  "rank_gaps [''director'', ''team'', ''vision''] = [''team'', ''director'', ''vision'']"
  by code_simp

lemma sample_run_gaps:
  "\<exists>res st'. run_enhanced_ontological_analysis sorted_list_of_set empty_domains chef_resume team_jd
       sample_ontology None = (Inr res, st')
     \<and> map_of (domain_gaps res) ''Leadership & Influence'' = Some [''team'', ''director'', ''vision'']"
proof -
  from run_exists[OF sample_texts] obtain res where
    run: "run_enhanced_ontological_analysis sorted_list_of_set empty_domains chef_resume team_jd
       sample_ontology None = (Inr res, empty_domains(0 := add_business_terms (empty_domains 0)))"
    by blast
  have "map_of (domain_gaps res) ''Leadership & Influence'' = Some [''team'', ''director'', ''vision'']"
    unfolding run_gaps_lookup[OF run] map_of_enhanced_keyword_map[OF sample_texts(5)] leadership_terms
      option.map option.case sample_leadership_jd_keywords sample_leadership_missing
      sample_leadership_order sample_leadership_ranked
    by simp
  with run show ?thesis by blast
qed

section \<open>Properties of the gap lists\<close>

text \<open>
  C8. For every analysis run and every domain, the returned gap list of the domain has at
  most 20 entries.
\<close>

theorem gap_list_at_most_20:
  assumes "run_enhanced_ontological_analysis iter st r_text j_text ont soc_override = (Inr res, st')"
    and "(d, gs) \<in> set (domain_gaps res)"
  shows "length gs \<le> 20"
  using run_gap_entries[OF assms] length_rank_gaps by blast

theorem gap_list_at_most_20_witness:
  "\<exists>res st'. run_enhanced_ontological_analysis sorted_list_of_set empty_domains chef_resume team_jd
       sample_ontology None = (Inr res, st')
     \<and> (''Leadership & Influence'', [''team'', ''director'', ''vision'']) \<in> set (domain_gaps res)
     \<and> length [''team'', ''director'', ''vision''] \<le> 20"
proof -
  from sample_run_gaps obtain res st' where
    run: "run_enhanced_ontological_analysis sorted_list_of_set empty_domains chef_resume team_jd
       sample_ontology None = (Inr res, st')"
    and gaps: "map_of (domain_gaps res) ''Leadership & Influence'' = Some [''team'', ''director'', ''vision'']"
    by blast
  have mem: "(''Leadership & Influence'', [''team'', ''director'', ''vision'']) \<in> set (domain_gaps res)"
    using gaps by (rule map_of_SomeD)
  from gap_list_at_most_20[OF run mem] run mem show ?thesis by blast
qed

text \<open>
  C7. In every returned gap list, every gap that contains one of the high-priority
  business substrings stands earlier in the list than every gap that contains none of
  them.
\<close>

theorem business_gaps_come_first:
  assumes "run_enhanced_ontological_analysis iter st r_text j_text ont soc_override = (Inr res, st')"
    and "(d, gs) \<in> set (domain_gaps res)"
    and "i < length gs" "j < length gs"
    and "is_business (gs ! i)" "\<not> is_business (gs ! j)"
  shows "i < j"
proof -
  from run_gap_entries[OF assms(1,2)] obtain ys where "gs = rank_gaps ys" by blast
  with assms(3-6) show ?thesis using rank_gaps_business_first by blast
qed

theorem business_gaps_come_first_witness:
  "\<exists>res st'. run_enhanced_ontological_analysis sorted_list_of_set empty_domains chef_resume team_jd
       sample_ontology None = (Inr res, st')
     \<and> (''Leadership & Influence'', [''team'', ''director'', ''vision'']) \<in> set (domain_gaps res)
     \<and> is_business ([''team'', ''director'', ''vision''] ! 0)
     \<and> \<not> is_business ([''team'', ''director'', ''vision''] ! 1)
     \<and> (0::nat) < 1"
proof -
  from sample_run_gaps obtain res st' where
    run: "run_enhanced_ontological_analysis sorted_list_of_set empty_domains chef_resume team_jd
       sample_ontology None = (Inr res, st')"
    and gaps: "map_of (domain_gaps res) ''Leadership & Influence'' = Some [''team'', ''director'', ''vision'']"
    by blast
  have mem: "(''Leadership & Influence'', [''team'', ''director'', ''vision'']) \<in> set (domain_gaps res)"
    using gaps by (rule map_of_SomeD)
  have b0: "is_business ([''team'', ''director'', ''vision''] ! 0)" by code_simp
  have b1: "\<not> is_business ([''team'', ''director'', ''vision''] ! 1)" by code_simp
  have "(0::nat) < 1"
    using business_gaps_come_first[OF run mem _ _ b0 b1] by simp
  with run mem b0 b1 show ?thesis by blast
qed

text \<open>
  C10. Every domain that is a key of \<^verbatim>\<open>domain_gaps\<close> is a key of
  \<^verbatim>\<open>domain_scores\<close> too, so the visibility score never reads the default
  \<^verbatim>\<open>0\<close> for a domain with gaps.
\<close>

theorem gapped_domain_has_score:
  assumes "run_enhanced_ontological_analysis iter st r_text j_text ont soc_override = (Inr res, st')"
    and "has_key (domain_gaps res) d"
  shows "has_key (domain_scores res) d
     \<and> (\<exists>s. map_of (domain_scores res) d = Some s \<and> dict_get (domain_scores res) d 0 = s)"
proof -
  have "set (keys (fst (snd (score_domains iter (clean_and_extract_words j_text) (lower r_text)
            (enhanced_keyword_map st ont)))))
      \<subseteq> set (keys (fst (score_domains iter (clean_and_extract_words j_text) (lower r_text)
            (enhanced_keyword_map st ont))))"
    unfolding score_domains_def by (rule fold_score_keys) (simp add: keys_def)
  then have "set (keys (domain_gaps res)) \<subseteq> set (keys (domain_scores res))"
    by (simp add: run_fields(1,2)[OF assms(1)])
  with assms(2) have k: "has_key (domain_scores res) d" by (auto simp: has_key_def)
  then obtain s where "map_of (domain_scores res) d = Some s"
    by (auto simp: has_key_map_of)
  with k show ?thesis by (simp add: dict_get_def)
qed

theorem gapped_domain_has_score_witness:
  "\<exists>res st'. run_enhanced_ontological_analysis sorted_list_of_set empty_domains chef_resume team_jd
       sample_ontology None = (Inr res, st')
     \<and> has_key (domain_gaps res) ''Leadership & Influence''
     \<and> has_key (domain_scores res) ''Leadership & Influence''"
proof -
  from sample_run_gaps obtain res st' where
    run: "run_enhanced_ontological_analysis sorted_list_of_set empty_domains chef_resume team_jd
       sample_ontology None = (Inr res, st')"
    and gaps: "map_of (domain_gaps res) ''Leadership & Influence'' = Some [''team'', ''director'', ''vision'']"
    by blast
  have k: "has_key (domain_gaps res) ''Leadership & Influence''"
    using gaps by (simp add: has_key_map_of)
  from gapped_domain_has_score[OF run k] run k show ?thesis by blast
qed

section \<open>Declined inputs\<close>

text \<open>
  C9. If the job-description text is empty, or its normalization is the empty set, the
  analysis ends in one of the input errors and returns no result; the store is as it was.
\<close>

theorem empty_jd_is_declined:
  assumes "j_text = [] \<or> clean_and_extract_words j_text = {}"
  shows "fst (run_enhanced_ontological_analysis iter st r_text j_text ont soc_override)
     \<in> {Inl NoResumeText, Inl NoJdText, Inl NoResumeContent, Inl NoJdContent}
     \<and> snd (run_enhanced_ontological_analysis iter st r_text j_text ont soc_override) = st"
  using assms by (auto simp: run_enhanced_ontological_analysis_def Let_def)

theorem empty_jd_is_declined_witness:
  "clean_and_extract_words short_words_jd = {}
   \<and> fst (run_enhanced_ontological_analysis sorted_list_of_set empty_domains chef_resume
            short_words_jd sample_ontology None)
     \<in> {Inl NoResumeText, Inl NoJdText, Inl NoResumeContent, Inl NoJdContent}
   \<and> snd (run_enhanced_ontological_analysis sorted_list_of_set empty_domains chef_resume
            short_words_jd sample_ontology None) = empty_domains"
proof -
  have e: "clean_and_extract_words short_words_jd = {}" by code_simp
  then have "short_words_jd = [] \<or> clean_and_extract_words short_words_jd = {}" by simp
  from empty_jd_is_declined[OF this] e show ?thesis by blast
qed

section \<open>Matched keywords and gaps\<close>

lemma found_missing_partition:
  "found_in rl S \<inter> missing_in rl S = {}" "found_in rl S \<union> missing_in rl S = S"
  "missing_in rl S = S - found_in rl S"
  by (auto simp: found_in_def missing_in_def)

lemma rank_gaps_distinct:
  assumes "distinct ys"
  shows "distinct (rank_gaps ys)" and "length (rank_gaps ys) = min 20 (length ys)"
proof -
  define zs where "zs = filter is_business ys @ filter (\<lambda>g. \<not> is_business g) ys"
  have rg: "rank_gaps ys = take 20 zs" by (simp add: rank_gaps_def Let_def zs_def)
  have "distinct zs" using assms by (auto simp: zs_def)
  then show "distinct (rank_gaps ys)" by (simp add: rg)
  have "length zs = length ys" using sum_length_filter_compl'[of is_business ys] by (simp add: zs_def)
  then show "length (rank_gaps ys) = min 20 (length ys)" by (simp add: rg min.commute)
qed

lemma run_scored_domain:
  assumes "run_enhanced_ontological_analysis iter st r_text j_text ont soc_override = (Inr res, st')"
    and "has_key (domain_scores res) d"
  shows "\<exists>kws. map_of (enhanced_keyword_map st ont) d = Some kws
     \<and> kws \<inter> clean_and_extract_words j_text \<noteq> {}
     \<and> domain_jd_keywords st ont j_text d = kws \<inter> clean_and_extract_words j_text"
  using assms(2) unfolding has_key_map_of run_scores_lookup[OF assms(1)]
  by (auto simp: domain_jd_keywords_def dict_get_def split: option.splits if_splits)

lemma run_gap_list:
  assumes "run_enhanced_ontological_analysis iter st r_text j_text ont soc_override = (Inr res, st')"
    and "has_key (domain_scores res) d"
  shows "dict_get (domain_gaps res) d [] =
     (if missing_in (lower r_text) (domain_jd_keywords st ont j_text d) = {} then []
      else rank_gaps (iter (missing_in (lower r_text) (domain_jd_keywords st ont j_text d))))"
proof -
  from run_scored_domain[OF assms] obtain kws where
    k: "map_of (enhanced_keyword_map st ont) d = Some kws"
      "kws \<inter> clean_and_extract_words j_text \<noteq> {}"
      "domain_jd_keywords st ont j_text d = kws \<inter> clean_and_extract_words j_text"
    by blast
  show ?thesis
    by (simp add: dict_get_def run_gaps_lookup[OF assms(1)] k)
qed

lemma run_gap_list_length:
  assumes "run_enhanced_ontological_analysis iter st r_text j_text ont soc_override = (Inr res, st')"
  shows "length (dict_get (domain_gaps res) d []) \<le> 20"
proof (cases "map_of (domain_gaps res) d")
  case None
  then show ?thesis by (simp add: dict_get_def)
next
  case (Some gs)
  then have "(d, gs) \<in> set (domain_gaps res)" by (rule map_of_SomeD)
  from run_gap_entries[OF assms this] show ?thesis
    using Some length_rank_gaps by (auto simp: dict_get_def)
qed

lemma finite_domain_jd_keywords: "finite (domain_jd_keywords st ont j_text d)"
  by (simp add: domain_jd_keywords_def finite_clean_and_extract_words)

lemma visits_each_once_sorted: "visits_each_once sorted_list_of_set"
  by (simp add: visits_each_once_def)

text \<open>
  C1, as the code has it. For every domain with a score, the matched keywords and the
  returned gap list are disjoint and both lie within the JD-intersected keywords of the
  domain; the gap list holds 20 of the unmatched keywords when there are more than 20 of
  them, and all of them otherwise, in which case the union is the whole keyword set.
\<close>

theorem gaps_partition_up_to_cut:
  assumes "run_enhanced_ontological_analysis iter st r_text j_text ont soc_override = (Inr res, st')"
    and "visits_each_once iter"
    and "has_key (domain_scores res) d"
  shows "found_in (lower r_text) (domain_jd_keywords st ont j_text d)
           \<inter> set (dict_get (domain_gaps res) d []) = {}
     \<and> found_in (lower r_text) (domain_jd_keywords st ont j_text d)
           \<union> set (dict_get (domain_gaps res) d []) \<subseteq> domain_jd_keywords st ont j_text d
     \<and> card (set (dict_get (domain_gaps res) d [])) =
         min 20 (card (domain_jd_keywords st ont j_text d
                        - found_in (lower r_text) (domain_jd_keywords st ont j_text d)))
     \<and> (card (domain_jd_keywords st ont j_text d
               - found_in (lower r_text) (domain_jd_keywords st ont j_text d)) \<le> 20
          \<longrightarrow> found_in (lower r_text) (domain_jd_keywords st ont j_text d)
                \<union> set (dict_get (domain_gaps res) d []) = domain_jd_keywords st ont j_text d)"
proof -
  define D where "D = domain_jd_keywords st ont j_text d"
  define M where "M = found_in (lower r_text) D"
  define G where "G = set (dict_get (domain_gaps res) d [])"
  define U where "U = missing_in (lower r_text) D"
  have finU: "finite U" unfolding U_def found_missing_partition(3) D_def
    using finite_domain_jd_keywords by simp
  have U: "U = D - M" "M \<union> U = D" "M \<inter> U = {}"
    using found_missing_partition[of "lower r_text" D] by (auto simp: U_def M_def)
  have gl: "dict_get (domain_gaps res) d [] = (if U = {} then [] else rank_gaps (iter U))"
    using run_gap_list[OF assms(1,3)] by (simp add: U_def D_def)
  have it: "set (iter U) = U" "distinct (iter U)"
    using assms(2) finU by (auto simp: visits_each_once_def)
  have sub: "G \<subseteq> U"
    using set_rank_gaps_subset[of "iter U"] it(1) by (auto simp: G_def gl)
  have len: "length (iter U) = card U"
    using distinct_card[OF it(2)] it(1) by simp
  have cardG: "card G = min 20 (card U)"
  proof (cases "U = {}")
    case True
    then show ?thesis by (simp add: G_def gl)
  next
    case False
    have "card (set (rank_gaps (iter U))) = length (rank_gaps (iter U))"
      using rank_gaps_distinct(1)[OF it(2)] by (rule distinct_card)
    then show ?thesis using False rank_gaps_distinct(2)[OF it(2)] len by (simp add: G_def gl)
  qed
  have full: "card U \<le> 20 \<Longrightarrow> G = U"
  proof -
    assume "card U \<le> 20"
    then have "card G = card U" using cardG by simp
    with sub finU show "G = U" by (simp add: card_subset_eq)
  qed
  have "M \<inter> G = {}" using sub U(3) by blast
  moreover have "M \<union> G \<subseteq> D" using sub U(2) by blast
  moreover have "card G = min 20 (card (D - M))" using cardG U(1) by simp
  moreover have "card (D - M) \<le> 20 \<longrightarrow> M \<union> G = D" using full U by auto
  ultimately show ?thesis unfolding M_def G_def D_def by blast
qed

lemma run_gap_keys_subset:
  assumes "run_enhanced_ontological_analysis iter st r_text j_text ont soc_override = (Inr res, st')"
  shows "set (keys (domain_gaps res)) \<subseteq> set (keys (domain_scores res))"
proof -
  have "set (keys (fst (snd (score_domains iter (clean_and_extract_words j_text) (lower r_text)
            (enhanced_keyword_map st ont)))))
      \<subseteq> set (keys (fst (score_domains iter (clean_and_extract_words j_text) (lower r_text)
            (enhanced_keyword_map st ont))))"
    unfolding score_domains_def by (rule fold_score_keys) (simp add: keys_def)
  then show ?thesis by (simp add: run_fields(1,2)[OF assms(1)])
qed

theorem gaps_partition_up_to_cut_witness:
  "visits_each_once sorted_list_of_set
   \<and> (\<exists>res st'. run_enhanced_ontological_analysis sorted_list_of_set empty_domains chef_resume
          team_jd sample_ontology None = (Inr res, st')
        \<and> has_key (domain_scores res) ''Leadership & Influence''
        \<and> set (dict_get (domain_gaps res) ''Leadership & Influence'' []) = {''team'', ''director'', ''vision''}
        \<and> found_in (lower chef_resume)
             (domain_jd_keywords empty_domains sample_ontology team_jd ''Leadership & Influence'')
           \<union> set (dict_get (domain_gaps res) ''Leadership & Influence'' [])
           = domain_jd_keywords empty_domains sample_ontology team_jd ''Leadership & Influence'')"
proof -
  from sample_run_gaps obtain res st' where
    run: "run_enhanced_ontological_analysis sorted_list_of_set empty_domains chef_resume team_jd
       sample_ontology None = (Inr res, st')"
    and gaps: "map_of (domain_gaps res) ''Leadership & Influence'' = Some [''team'', ''director'', ''vision'']"
    by blast
  have "has_key (domain_gaps res) ''Leadership & Influence''"
    using gaps by (simp add: has_key_map_of)
  then have k: "has_key (domain_scores res) ''Leadership & Influence''"
    using run_gap_keys_subset[OF run] by (auto simp: has_key_def)
  have g: "set (dict_get (domain_gaps res) ''Leadership & Influence'' []) = {''team'', ''director'', ''vision''}"
    using gaps by (simp add: dict_get_def)
  note t = gaps_partition_up_to_cut[OF run visits_each_once_sorted k]
  have "card (set (dict_get (domain_gaps res) ''Leadership & Influence'' [])) = 3"
    unfolding g by simp
  with t have "card (domain_jd_keywords empty_domains sample_ontology team_jd ''Leadership & Influence''
      - found_in (lower chef_resume)
          (domain_jd_keywords empty_domains sample_ontology team_jd ''Leadership & Influence'')) \<le> 20"
    by (simp add: min_def split: if_splits)
  with t have "found_in (lower chef_resume)
             (domain_jd_keywords empty_domains sample_ontology team_jd ''Leadership & Influence'')
           \<union> set (dict_get (domain_gaps res) ''Leadership & Influence'' [])
           = domain_jd_keywords empty_domains sample_ontology team_jd ''Leadership & Influence''"
    by blast
  with run k g visits_each_once_sorted show ?thesis by blast
qed

subsection \<open>The run on the languages\<close>

lemma languages_texts:
  "chef_resume \<noteq> []" "languages_jd \<noteq> []"
  "clean_and_extract_words chef_resume \<noteq> {}" "clean_and_extract_words languages_jd \<noteq> {}"
  "SignalDomains sample_ontology = Some 0"
  by (simp add: chef_resume_def, simp add: languages_jd_def, code_simp, code_simp,
      simp add: sample_ontology_def)

lemma languages_terms:
  "map_of (rev (add_business_terms (language_domains 0))) ''Programming Languages'' = Some languages"
  by code_simp

lemma languages_jd_keywords:
  "domain_keywords_of languages \<inter> clean_and_extract_words languages_jd = set languages"
  by code_simp

lemma languages_found: "found_in (lower chef_resume) (set languages) = {}"
  by code_simp

lemma card_languages: "card (set languages) = 21"
  by code_simp

text \<open>
  C1 fails on the code: the domain has 21 keywords in the job description, none of them in
  the resume, and the gap list holds 20 of them.
\<close>

theorem gaps_partition_counterexample:
  "\<not> isl (fst languages_run)
   \<and> has_key (domain_scores (projr (fst languages_run))) ''Programming Languages''
   \<and> found_in (lower chef_resume)
        (domain_jd_keywords language_domains sample_ontology languages_jd ''Programming Languages'')
      \<union> set (dict_get (domain_gaps (projr (fst languages_run))) ''Programming Languages'' [])
      \<noteq> domain_jd_keywords language_domains sample_ontology languages_jd ''Programming Languages''"
proof -
  from run_exists[OF languages_texts] obtain res where
    run: "run_enhanced_ontological_analysis sorted_list_of_set language_domains chef_resume
       languages_jd sample_ontology None
       = (Inr res, language_domains(0 := add_business_terms (language_domains 0)))"
    by blast
  then have lr: "fst languages_run = Inr res" by (simp add: languages_run_def)
  have kw: "map_of (enhanced_keyword_map language_domains sample_ontology) ''Programming Languages''
      = Some (domain_keywords_of languages)"
    by (simp add: map_of_enhanced_keyword_map[OF languages_texts(5)] languages_terms)
  have D: "domain_jd_keywords language_domains sample_ontology languages_jd ''Programming Languages''
      = set languages"
    by (simp add: domain_jd_keywords_def dict_get_def kw languages_jd_keywords)
  have ne: "languages \<noteq> []" using card_languages by auto
  have "map_of (domain_scores res) ''Programming Languages'' \<noteq> None"
    unfolding run_scores_lookup[OF run] kw by (simp add: languages_jd_keywords ne)
  then have k: "has_key (domain_scores res) ''Programming Languages''"
    by (simp add: has_key_map_of)
  have "card (set (dict_get (domain_gaps res) ''Programming Languages'' []))
      \<le> length (dict_get (domain_gaps res) ''Programming Languages'' [])"
    by (rule card_length)
  also have "\<dots> \<le> 20" by (rule run_gap_list_length[OF run])
  finally have "set (dict_get (domain_gaps res) ''Programming Languages'' []) \<noteq> set languages"
    using card_languages by auto
  then show ?thesis
    by (simp add: lr k D languages_found)
qed

section \<open>Occupation group prediction\<close>

lemma override_applies_names_group:
  "override_applies soc_override soc_groups \<Longrightarrow> names_group soc_override soc_groups"
  by (auto simp: override_applies_def names_group_def split: option.splits)

lemma override_applies_iff:
  "override_applies (Some name) soc_groups \<longleftrightarrow>
     name \<noteq> [] \<and> name \<noteq> ''Auto Detect'' \<and> has_key soc_groups name"
  by (simp add: override_applies_def)

lemma predict_soc_it_mgmt:
  assumes "\<not> override_applies soc_override soc_groups"
    and "3 \<le> count_in it_indicators (lower j_text)"
    and "2 \<le> count_in management_indicators (lower j_text)"
  shows "predict_soc j_text jw rw dkm soc_groups soc_override =
     (Some ''Management Occupations'', 85, it_mgmt_scores)"
  using assms by (simp add: predict_soc_def Let_def)

lemma predict_soc_override:
  assumes "override_applies soc_override soc_groups"
  shows "predict_soc j_text jw rw dkm soc_groups soc_override =
     (soc_override, 100,
      fold (\<lambda>group_name scores.
              dict_set group_name (if Some group_name = soc_override then 100 else 0) scores)
           (keys soc_groups) [])"
  using assms by (simp add: predict_soc_def)

lemma predict_soc_fallback:
  assumes "\<not> override_applies soc_override soc_groups"
    and "count_in it_indicators (lower j_text) < 2"
    and "count_in management_indicators (lower j_text) < 2"
  shows "predict_soc j_text jw rw dkm soc_groups soc_override =
     fold (fallback_step dkm jw rw) soc_groups (None, - 1, [])"
  using assms by (simp add: predict_soc_def Let_def)

lemma map_of_fill_missing:
  "map_of (fill_missing ks sc) g =
     (case map_of sc g of Some v \<Rightarrow> Some v | None \<Rightarrow> if g \<in> set ks then Some 0 else None)"
proof (induction ks arbitrary: sc)
  case Nil
  then show ?case by (simp add: fill_missing_def split: option.splits)
next
  case (Cons k ks)
  have step: "fill_missing (k # ks) sc = fill_missing ks (if has_key sc k then sc else dict_set k 0 sc)"
    by (simp add: fill_missing_def)
  show ?case
    unfolding step Cons.IH
    by (auto simp: has_key_map_of map_of_dict_set split: option.splits)
qed

lemma fill_missing_Nil: "fill_missing [] sc = sc"
  by (simp add: fill_missing_def)

lemma map_of_fold_override:
  "map_of (fold (\<lambda>g sc. dict_set g (f g) sc) ks m) g =
     (if g \<in> set ks then Some (f g) else map_of m g)"
  by (induction ks arbitrary: m) (auto simp: map_of_dict_set)

text \<open>
  C5. If no override names a group of the ontology, and the lowercased job description
  has at least 3 of the IT indicator phrases and at least 2 of the management indicator
  phrases, the predicted group is \<open>Management Occupations\<close>, with the score 85, and the
  scores are those of the fixed table, with 0 for the groups of the ontology that the
  table does not list: the resume and the keyword index have no part in them.
\<close>

theorem it_and_management_prediction:
  assumes "run_enhanced_ontological_analysis iter st r_text j_text ont soc_override = (Inr res, st')"
    and "\<not> names_group soc_override (soc_groups_of ont)"
    and "3 \<le> count_in it_indicators (lower j_text)"
    and "2 \<le> count_in management_indicators (lower j_text)"
  shows "predicted_soc_group res = Some ''Management Occupations''
     \<and> map_of (soc_scores res) ''Management Occupations'' = Some 85
     \<and> soc_scores res = fill_missing (keys (soc_groups_of ont)) it_mgmt_scores
     \<and> map_of (soc_scores res) g =
         (case map_of it_mgmt_scores g of
            Some v \<Rightarrow> Some v
          | None \<Rightarrow> if has_key (soc_groups_of ont) g then Some 0 else None)"
proof -
  have no: "\<not> override_applies soc_override (soc_groups_of ont)"
    using assms(2) override_applies_names_group by blast
  note p = predict_soc_it_mgmt[OF no assms(3,4)]
  have s: "soc_scores res = fill_missing (keys (soc_groups_of ont)) it_mgmt_scores"
    by (simp add: run_fields(4)[OF assms(1)] p)
  have "map_of (soc_scores res) ''Management Occupations'' = Some 85"
    unfolding s map_of_fill_missing by (simp add: it_mgmt_scores_def)
  then show ?thesis
    by (simp add: run_fields(3)[OF assms(1)] p s map_of_fill_missing has_key_def)
qed

lemma agile_texts:
  "chef_resume \<noteq> []" "agile_manager_jd \<noteq> []"
  "clean_and_extract_words chef_resume \<noteq> {}" "clean_and_extract_words agile_manager_jd \<noteq> {}"
  by (simp add: chef_resume_def, simp add: agile_manager_jd_def, code_simp, code_simp)

lemma agile_counts:
  "3 \<le> count_in it_indicators (lower agile_manager_jd)"
  "2 \<le> count_in management_indicators (lower agile_manager_jd)"
  by code_simp+

theorem it_and_management_prediction_witness:
  "\<not> names_group None (soc_groups_of sample_ontology)
   \<and> 3 \<le> count_in it_indicators (lower agile_manager_jd)
   \<and> 2 \<le> count_in management_indicators (lower agile_manager_jd)
   \<and> (\<exists>res st'. run_enhanced_ontological_analysis sorted_list_of_set empty_domains chef_resume
          agile_manager_jd sample_ontology None = (Inr res, st')
        \<and> predicted_soc_group res = Some ''Management Occupations''
        \<and> map_of (soc_scores res) ''Management Occupations'' = Some 85)"
proof -
  have n: "\<not> names_group None (soc_groups_of sample_ontology)"
    by (simp add: names_group_def)
  from run_exists[OF agile_texts sample_texts(5)] obtain res where
    run: "run_enhanced_ontological_analysis sorted_list_of_set empty_domains chef_resume
       agile_manager_jd sample_ontology None
       = (Inr res, empty_domains(0 := add_business_terms (empty_domains 0)))"
    by blast
  from it_and_management_prediction[OF run n agile_counts] run n agile_counts
  show ?thesis by blast
qed

text \<open>
  C3 fails on the code: the ontology has no occupation group, the job description has four
  IT and three management indicator phrases, and the run predicts a group and scores
  five.
\<close>

theorem no_groups_counterexample:
  "soc_groups_of no_groups_ontology = []
   \<and> \<not> isl (fst agile_run)
   \<and> predicted_soc_group (projr (fst agile_run)) = Some ''Management Occupations''
   \<and> soc_scores (projr (fst agile_run)) = it_mgmt_scores"
proof -
  have g: "soc_groups_of no_groups_ontology = []"
    by (simp add: soc_groups_of_def no_groups_ontology_def)
  have sd: "SignalDomains no_groups_ontology = Some 0"
    by (simp add: no_groups_ontology_def)
  from run_exists[OF agile_texts sd] obtain res where
    run: "run_enhanced_ontological_analysis sorted_list_of_set empty_domains chef_resume
       agile_manager_jd no_groups_ontology None
       = (Inr res, empty_domains(0 := add_business_terms (empty_domains 0)))"
    by blast
  then have ar: "fst agile_run = Inr res" by (simp add: agile_run_def)
  have no: "\<not> override_applies None (soc_groups_of no_groups_ontology)"
    by (simp add: override_applies_def)
  note p = predict_soc_it_mgmt[OF no agile_counts, unfolded g]
  show ?thesis
    by (simp add: ar g run_fields(3,4)[OF run] p keys_def fill_missing_Nil)
qed

text \<open>
  C3, as the code has it. If the ontology has no occupation group and the job
  description has fewer than 2 IT indicator phrases and fewer than 2 management
  indicator phrases, the predicted group is null and the score map is empty.
\<close>

theorem no_groups_no_prediction:
  assumes "run_enhanced_ontological_analysis iter st r_text j_text ont soc_override = (Inr res, st')"
    and "soc_groups_of ont = []"
    and "count_in it_indicators (lower j_text) < 2"
    and "count_in management_indicators (lower j_text) < 2"
  shows "predicted_soc_group res = None \<and> soc_scores res = []"
proof -
  have no: "\<not> override_applies soc_override (soc_groups_of ont)"
    by (simp add: assms(2) override_applies_def has_key_def keys_def split: option.splits)
  note p = predict_soc_fallback[OF no assms(3,4), unfolded assms(2)]
  show ?thesis
    by (simp add: run_fields(3,4)[OF assms(1)] p assms(2) keys_def fill_missing_Nil)
qed

lemma team_counts:
  "count_in it_indicators (lower team_jd) < 2"
  "count_in management_indicators (lower team_jd) < 2"
  by code_simp+

theorem no_groups_no_prediction_witness:
  "soc_groups_of no_groups_ontology = []
   \<and> count_in it_indicators (lower team_jd) < 2
   \<and> count_in management_indicators (lower team_jd) < 2
   \<and> (\<exists>res st'. run_enhanced_ontological_analysis sorted_list_of_set empty_domains chef_resume
          team_jd no_groups_ontology None = (Inr res, st')
        \<and> predicted_soc_group res = None \<and> soc_scores res = [])"
proof -
  have g: "soc_groups_of no_groups_ontology = []"
    by (simp add: soc_groups_of_def no_groups_ontology_def)
  have sd: "SignalDomains no_groups_ontology = Some 0"
    by (simp add: no_groups_ontology_def)
  from run_exists[OF sample_texts(1-4) sd] obtain res where
    run: "run_enhanced_ontological_analysis sorted_list_of_set empty_domains chef_resume
       team_jd no_groups_ontology None
       = (Inr res, empty_domains(0 := add_business_terms (empty_domains 0)))"
    by blast
  from no_groups_no_prediction[OF run g team_counts] run g team_counts
  show ?thesis by blast
qed

text \<open>
  C6 fails on the code: \<open>Auto Detect\<close> is a key of the occupation groups and is the
  override, and the run predicts another group and gives \<open>Auto Detect\<close> the score 0.
\<close>

theorem override_counterexample:
  "names_group (Some ''Auto Detect'') (soc_groups_of auto_detect_ontology)
   \<and> \<not> isl (fst auto_detect_run)
   \<and> predicted_soc_group (projr (fst auto_detect_run)) = Some ''Management Occupations''
   \<and> map_of (soc_scores (projr (fst auto_detect_run))) ''Auto Detect'' = Some 0"
proof -
  have n: "names_group (Some ''Auto Detect'') (soc_groups_of auto_detect_ontology)"
    by (simp add: names_group_def soc_groups_of_def auto_detect_ontology_def has_key_def keys_def)
  have sd: "SignalDomains auto_detect_ontology = Some 0"
    by (simp add: auto_detect_ontology_def)
  from run_exists[OF agile_texts sd] obtain res where
    run: "run_enhanced_ontological_analysis sorted_list_of_set empty_domains chef_resume
       agile_manager_jd auto_detect_ontology (Some ''Auto Detect'')
       = (Inr res, empty_domains(0 := add_business_terms (empty_domains 0)))"
    by blast
  then have ar: "fst auto_detect_run = Inr res" by (simp add: auto_detect_run_def)
  have no: "\<not> override_applies (Some ''Auto Detect'') (soc_groups_of auto_detect_ontology)"
    by (simp add: override_applies_def)
  note p = predict_soc_it_mgmt[OF no agile_counts]
  have "map_of (soc_scores res) ''Auto Detect'' = Some 0"
    unfolding run_fields(4)[OF run] p map_of_fill_missing
    by (simp add: it_mgmt_scores_def soc_groups_of_def auto_detect_ontology_def keys_def)
  then show ?thesis
    by (simp add: ar n run_fields(3)[OF run] p)
qed

text \<open>
  C6, as the code has it. If the override is a key of the occupation groups, is not
  empty and is not \<open>Auto Detect\<close>, the predicted group is the override, its score is
  100 and the score of every other group of the ontology is 0, whatever the job
  description says; no other group has a score.
\<close>

theorem override_prediction:
  assumes "run_enhanced_ontological_analysis iter st r_text j_text ont (Some name) = (Inr res, st')"
    and "names_group (Some name) (soc_groups_of ont)"
    and "name \<noteq> []" "name \<noteq> ''Auto Detect''"
  shows "predicted_soc_group res = Some name
     \<and> map_of (soc_scores res) name = Some 100
     \<and> map_of (soc_scores res) g =
         (if has_key (soc_groups_of ont) g then Some (if g = name then 100 else 0) else None)"
proof -
  have k: "has_key (soc_groups_of ont) name" using assms(2) by (simp add: names_group_def)
  then have ov: "override_applies (Some name) (soc_groups_of ont)"
    using assms(3,4) by (simp add: override_applies_iff)
  note p = predict_soc_override[OF ov]
  have s: "map_of (soc_scores res) h =
      (if has_key (soc_groups_of ont) h then Some (if h = name then 100 else 0) else None)" for h
    unfolding run_fields(4)[OF assms(1)] p
    by (simp add: map_of_fill_missing map_of_fold_override has_key_def)
  have "predicted_soc_group res = Some name"
    by (simp add: run_fields(3)[OF assms(1)] p)
  then show ?thesis using s[of g] s[of name] k by simp
qed

theorem override_prediction_witness:
  "names_group (Some ''Computer and Mathematical Occupations'') (soc_groups_of sample_ontology)
   \<and> ''Computer and Mathematical Occupations'' \<noteq> []
   \<and> ''Computer and Mathematical Occupations'' \<noteq> ''Auto Detect''
   \<and> (\<exists>res st'. run_enhanced_ontological_analysis sorted_list_of_set empty_domains chef_resume
          agile_manager_jd sample_ontology (Some ''Computer and Mathematical Occupations'')
          = (Inr res, st')
        \<and> predicted_soc_group res = Some ''Computer and Mathematical Occupations''
        \<and> map_of (soc_scores res) ''Computer and Mathematical Occupations'' = Some 100
        \<and> map_of (soc_scores res) ''Management Occupations'' = Some 0)"
proof -
  have n: "names_group (Some ''Computer and Mathematical Occupations'') (soc_groups_of sample_ontology)"
    by (simp add: names_group_def soc_groups_of_def sample_ontology_def sample_groups_def
        has_key_def keys_def)
  have m: "has_key (soc_groups_of sample_ontology) ''Management Occupations''"
    by (simp add: soc_groups_of_def sample_ontology_def sample_groups_def has_key_def keys_def)
  from run_exists[OF agile_texts sample_texts(5)] obtain res where
    run: "run_enhanced_ontological_analysis sorted_list_of_set empty_domains chef_resume
       agile_manager_jd sample_ontology (Some ''Computer and Mathematical Occupations'')
       = (Inr res, empty_domains(0 := add_business_terms (empty_domains 0)))"
    by blast
  have a: "''Computer and Mathematical Occupations'' \<noteq> []"
    and b: "''Computer and Mathematical Occupations'' \<noteq> ''Auto Detect''"
    by simp_all
  from override_prediction[OF run n a b, of "''Management Occupations''"] m run n
  show ?thesis by auto
qed

section \<open>The store after a run\<close>

lemma add_business_terms_empty: "add_business_terms [] = business_term_mappings"
  by code_simp

text \<open>
  C2, against the code. The ontology of the sample run holds its \<^verbatim>\<open>"SignalDomains"\<close>
  object at reference 0, and that object is the empty dictionary before the run. After
  the run the same object holds the nine business domains: the copy the analysis works
  on shares the object with the ontology it was given.
\<close>

theorem ontology_changed_by_run:
  "SignalDomains sample_ontology = Some 0
   \<and> empty_domains 0 = []
   \<and> \<not> isl (fst sample_run)
   \<and> snd sample_run 0 = business_term_mappings"
proof -
  from run_exists[OF sample_texts] obtain res where
    run: "run_enhanced_ontological_analysis sorted_list_of_set empty_domains chef_resume team_jd
       sample_ontology None = (Inr res, empty_domains(0 := add_business_terms (empty_domains 0)))"
    by blast
  then have eq: "sample_run = (Inr res, empty_domains(0 := add_business_terms (empty_domains 0)))"
    by (simp add: sample_run_def)
  show ?thesis
    unfolding eq by (simp add: sample_texts(5) empty_domains_def add_business_terms_empty)
qed

section \<open>Score bounds\<close>



























subsection \<open>A run with scores other than 0\<close>







end
